theory Spec2Isabelle
  imports Main "HOL-Library.Sublist" "HOL-Library.Multiset"
begin

section \<open>The uptime bot: data model\<close>

text \<open>
  The script \<^verbatim>\<open>uptime-bot.py\<close> is one straight line of statements: log in, look
  the account \<^verbatim>\<open>altbot\<close> up, fetch its last statuses, load the localization file,
  pull the \<^verbatim>\<open>altTextError\<close> messages out of it, count the statuses that contain
  one, compose a message and post it. Nothing is caught: every exception ends the run.
  The exceptions are values of \<open>error\<close>; a step that can raise returns \<open>error + 'a\<close>.
\<close>

datatype error =
    TypeError
  | KeyError
  | IndexError
  | AttributeError
  | MastodonError
  | LoadError

text \<open>
  What \<^verbatim>\<open>json.load\<close> returns: \<^verbatim>\<open>None\<close>, a bool, a number, a \<^verbatim>\<open>str\<close>, a
  \<^verbatim>\<open>list\<close> or a \<^verbatim>\<open>dict\<close> with string keys. A dict is kept as the list of its
  items in insertion order (its keys are distinct); the script never looks into a
  number, so one constructor stands for ints and floats alike.
\<close>

datatype json =
    JNull
  | JBool bool
  | JNum int
  | JStr string
  | JArr "json list"
  | JObj "(string \<times> json) list"

text \<open>
  A Python \<^verbatim>\<open>str\<close> is a \<open>string\<close>, the list of its characters: the script only
  concatenates strings and searches one in another.

  A status of the remote service; the script reads its \<^verbatim>\<open>'content'\<close> only.
\<close>

record status =
  content :: string

text \<open>The account dict returned by the lookup; the script reads its \<^verbatim>\<open>'id'\<close> only.\<close>

record account =
  id :: nat

text \<open>The \<^verbatim>\<open>## Secrets\<close> and \<^verbatim>\<open>## Config\<close> globals that the computation reads.\<close>

record config =
  mods :: string
  test :: bool
  number_of_statuses :: int
  threshold_of_errors :: int

section \<open>Python's operators on strings and JSON values\<close>

text \<open>
  \<^verbatim>\<open>sub in s\<close> on two \<^verbatim>\<open>str\<close>: is \<open>sub\<close> a contiguous run of \<open>s\<close>. The search
  tries every start position from the left.
\<close>

fun str_in :: "string \<Rightarrow> string \<Rightarrow> bool" where
  "str_in sub [] = (sub = [])"
| "str_in sub (c # cs) = (prefix sub (c # cs) \<or> str_in sub cs)"

text \<open>
  \<^verbatim>\<open>k in val\<close> for a \<^verbatim>\<open>str\<close> \<open>k\<close> and a loaded value: key membership on a dict,
  element equality on a list, substring on a \<^verbatim>\<open>str\<close>, and
  \<^verbatim>\<open>TypeError: argument of type ... is not iterable\<close> on anything else.
\<close>

fun py_in :: "string \<Rightarrow> json \<Rightarrow> error + bool" where
  "py_in k (JObj kvs) = Inr (k \<in> set (map fst kvs))"
| "py_in k (JArr xs) = Inr (JStr k \<in> set xs)"
| "py_in k (JStr s) = Inr (str_in k s)"
| "py_in k JNull = Inl TypeError"
| "py_in k (JBool b) = Inl TypeError"
| "py_in k (JNum n) = Inl TypeError"

text \<open>
  \<^verbatim>\<open>val[k]\<close> for a \<^verbatim>\<open>str\<close> \<open>k\<close>: the lookup on a dict (\<^verbatim>\<open>KeyError\<close> when the
  key is missing), \<^verbatim>\<open>TypeError\<close> on a list or a \<^verbatim>\<open>str\<close> (indices must be
  integers) and on a value that is not subscriptable.
\<close>

fun py_getitem :: "json \<Rightarrow> string \<Rightarrow> error + json" where
  "py_getitem (JObj kvs) k = (case map_of kvs k of None \<Rightarrow> Inl KeyError | Some v \<Rightarrow> Inr v)"
| "py_getitem (JArr xs) k = Inl TypeError"
| "py_getitem (JStr s) k = Inl TypeError"
| "py_getitem JNull k = Inl TypeError"
| "py_getitem (JBool b) k = Inl TypeError"
| "py_getitem (JNum n) k = Inl TypeError"

text \<open>
  \<^verbatim>\<open>error in content\<close> where \<open>content\<close> is a \<^verbatim>\<open>str\<close> and \<open>error\<close> is whatever the
  localization file holds: a \<^verbatim>\<open>str\<close> is searched for, anything else raises
  \<^verbatim>\<open>TypeError: 'in <string>' requires string as left operand\<close>.
\<close>

fun in_content :: "json \<Rightarrow> string \<Rightarrow> error + bool" where
  "in_content (JStr e) c = Inr (str_in e c)"
| "in_content JNull c = Inl TypeError"
| "in_content (JBool b) c = Inl TypeError"
| "in_content (JNum n) c = Inl TypeError"
| "in_content (JArr xs) c = Inl TypeError"
| "in_content (JObj kvs) c = Inl TypeError"

section \<open>Getting all localized altTextError messages\<close>

definition temp1 :: string where
  "temp1 = ''responses''"

definition temp2 :: string where
  "temp2 = ''altTextError''"

text \<open>
  Both comprehensions have the shape \<^verbatim>\<open>[val[k] for val in vals if k in val]\<close>:
  the values are visited in order, the test is evaluated first, and the first
  exception ends the comprehension.
\<close>

fun select_field :: "string \<Rightarrow> json list \<Rightarrow> error + json list" where
  "select_field k [] = Inr []"
| "select_field k (val # vals) =
     (case py_in k val of
        Inl e \<Rightarrow> Inl e
      | Inr b \<Rightarrow>
          if b then
            (case py_getitem val k of
               Inl e \<Rightarrow> Inl e
             | Inr v \<Rightarrow>
                 (case select_field k vals of
                    Inl e \<Rightarrow> Inl e
                  | Inr vs \<Rightarrow> Inr (v # vs)))
          else select_field k vals)"

text \<open>
  \<^verbatim>\<open>localizations.items()\<close>: the items of a dict, \<^verbatim>\<open>AttributeError\<close> on a list
  or a \<^verbatim>\<open>str\<close> or any other loaded value.
\<close>

fun py_items :: "json \<Rightarrow> error + (string \<times> json) list" where
  "py_items (JObj kvs) = Inr kvs"
| "py_items JNull = Inl AttributeError"
| "py_items (JBool b) = Inl AttributeError"
| "py_items (JNum n) = Inl AttributeError"
| "py_items (JStr s) = Inl AttributeError"
| "py_items (JArr xs) = Inl AttributeError"

text \<open>\<^verbatim>\<open>responses = [val[temp1] for key, val in localizations.items() if temp1 in val]\<close>\<close>

definition responses :: "json \<Rightarrow> error + json list" where
  "responses localizations =
     (case py_items localizations of
        Inl e \<Rightarrow> Inl e
      | Inr items \<Rightarrow> select_field temp1 (map snd items))"

text \<open>\<^verbatim>\<open>error_responses = [val[temp2] for val in responses if temp2 in val]\<close>\<close>

definition error_responses :: "json \<Rightarrow> error + json list" where
  "error_responses localizations =
     (case responses localizations of
        Inl e \<Rightarrow> Inl e
      | Inr rs \<Rightarrow> select_field temp2 rs)"

section \<open>Checking every status\<close>

text \<open>
  The inner loop \<^verbatim>\<open>for error in error_responses: if error in content: error_count += 1\<close>,
  with the counter passed through. There is no \<^verbatim>\<open>break\<close>: every phrase is tried.
\<close>

fun count_in_content :: "json list \<Rightarrow> string \<Rightarrow> int \<Rightarrow> error + int" where
  "count_in_content [] c error_count = Inr error_count"
| "count_in_content (e # es) c error_count =
     (case in_content e c of
        Inl x \<Rightarrow> Inl x
      | Inr b \<Rightarrow> count_in_content es c (if b then error_count + 1 else error_count))"

text \<open>
  The outer loop over the indices \<open>i\<close> of \<^verbatim>\<open>range(number_of_statuses)\<close>:
  \<^verbatim>\<open>altbot_statuses[i]\<close> raises \<^verbatim>\<open>IndexError\<close> when \<open>i\<close> is not below the length
  of the fetched list (the indices are never negative).
\<close>

fun status_loop :: "nat list \<Rightarrow> status list \<Rightarrow> json list \<Rightarrow> int \<Rightarrow> error + int" where
  "status_loop [] altbot_statuses errs error_count = Inr error_count"
| "status_loop (i # is) altbot_statuses errs error_count =
     (if i < length altbot_statuses then
        (case count_in_content errs (content (altbot_statuses ! i)) error_count of
           Inl x \<Rightarrow> Inl x
         | Inr n \<Rightarrow> status_loop is altbot_statuses errs n)
      else Inl IndexError)"

text \<open>\<^verbatim>\<open>range(n)\<close> is empty for \<open>n \<le> 0\<close>, and \<open>0, ..., n - 1\<close> otherwise.\<close>

definition py_range :: "int \<Rightarrow> nat list" where
  "py_range n = [0 ..< nat n]"

definition error_count :: "int \<Rightarrow> status list \<Rightarrow> json list \<Rightarrow> error + int" where
  "error_count n altbot_statuses errs = status_loop (py_range n) altbot_statuses errs 0"

section \<open>Composing and posting the message\<close>

definition alert_sentence :: string where
  "alert_sentence = ''@altbot is throwing errors.\<newline> Pinging ''"

definition all_is_fine :: string where
  "all_is_fine = ''All is fine''"

definition compose_status :: "int \<Rightarrow> int \<Rightarrow> string \<Rightarrow> string" where
  "compose_status cnt threshold ms =
     (if cnt \<ge> threshold then alert_sentence @ ms else all_is_fine)"

text \<open>
  The calls made on the client session, in the order they are issued.
  \<open>StatusPost text spoiler\<close> is \<^verbatim>\<open>status_post(text)\<close> when \<open>spoiler\<close> is \<open>None\<close>
  and \<^verbatim>\<open>status_post(text, spoiler_text=s)\<close> when it is \<open>Some s\<close>.
\<close>

datatype api_call =
    AccountLookup string
  | AccountStatuses nat int
  | StatusPost string "string option"

text \<open>
  What the outside answers during one run: the two reads of the remote service, the
  load of \<^verbatim>\<open>localizations.json\<close>, and the post. Each may raise.
\<close>

record world =
  account_lookup :: "string \<Rightarrow> error + account"
  account_statuses :: "nat \<Rightarrow> int \<Rightarrow> error + status list"
  json_load :: "error + json"
  status_post :: "string \<Rightarrow> string option \<Rightarrow> error + unit"

text \<open>
  The script up to the end of the counting loop: the calls issued on the session so
  far, and the count or the exception that ended the run.
\<close>

definition count_errors :: "config \<Rightarrow> world \<Rightarrow> api_call list \<times> (error + int)" where
  "count_errors cfg w =
     (case account_lookup w ''altbot'' of
        Inl e \<Rightarrow> ([AccountLookup ''altbot''], Inl e)
      | Inr acct \<Rightarrow>
          (let calls = [AccountLookup ''altbot'',
                        AccountStatuses (id acct) (number_of_statuses cfg)]
           in case account_statuses w (id acct) (number_of_statuses cfg) of
                Inl e \<Rightarrow> (calls, Inl e)
              | Inr altbot_statuses \<Rightarrow>
                  (case json_load w of
                     Inl e \<Rightarrow> (calls, Inl e)
                   | Inr localizations \<Rightarrow>
                       (case error_responses localizations of
                          Inl e \<Rightarrow> (calls, Inl e)
                        | Inr errs \<Rightarrow>
                            (calls,
                             error_count (number_of_statuses cfg) altbot_statuses errs)))))"

text \<open>The exception a call ended with, if any.\<close>

fun raised :: "error + unit \<Rightarrow> error option" where
  "raised (Inl e) = Some e"
| "raised (Inr u) = None"

text \<open>
  The last lines: \<^verbatim>\<open>if test: mastodon.status_post(status, spoiler_text="testing")\<close>,
  \<^verbatim>\<open>else: mastodon.status_post(status)\<close>.
\<close>

definition report :: "bool \<Rightarrow> string \<Rightarrow> world \<Rightarrow> api_call list \<times> error option" where
  "report tst st w =
     (if tst then
        ([StatusPost st (Some ''testing'')], raised (status_post w st (Some ''testing'')))
      else
        ([StatusPost st None], raised (status_post w st None)))"

text \<open>
  One run of the script: the calls issued on the session, and the exception that ended
  the run (\<open>None\<close> when it ran to its last line).
\<close>

definition run :: "config \<Rightarrow> world \<Rightarrow> api_call list \<times> error option" where
  "run cfg w =
     (case count_errors cfg w of
        (calls, Inl e) \<Rightarrow> (calls, Some e)
      | (calls, Inr cnt) \<Rightarrow>
          (case report (test cfg)
                  (compose_status cnt (threshold_of_errors cfg) (mods cfg)) w of
             (calls', r) \<Rightarrow> (calls @ calls', r)))"

text \<open>The create-status calls among the calls of a run.\<close>

fun is_post :: "api_call \<Rightarrow> bool" where
  "is_post (StatusPost st sp) = True"
| "is_post (AccountLookup a) = False"
| "is_post (AccountStatuses i n) = False"

definition posts :: "api_call list \<times> error option \<Rightarrow> api_call list" where
  "posts r = filter is_post (fst r)"

section \<open>Notions used to state the properties\<close>

text \<open>A phrase that is a \<^verbatim>\<open>str\<close>, the only kind the counting loop can search for.\<close>

fun is_str :: "json \<Rightarrow> bool" where
  "is_str (JStr s) = True"
| "is_str JNull = False"
| "is_str (JBool b) = False"
| "is_str (JNum n) = False"
| "is_str (JArr xs) = False"
| "is_str (JObj kvs) = False"

text \<open>How many entries of the phrase list occur in one content, counted with repetition.\<close>

definition hits :: "json list \<Rightarrow> string \<Rightarrow> nat" where
  "hits errs c = length (filter (\<lambda>e. in_content e c = Inr True) errs)"

text \<open>A record (a JSON object), and the value of a field of it when it has that field.\<close>

fun is_record :: "json \<Rightarrow> bool" where
  "is_record (JObj kvs) = True"
| "is_record JNull = False"
| "is_record (JBool b) = False"
| "is_record (JNum n) = False"
| "is_record (JStr s) = False"
| "is_record (JArr xs) = False"

fun field :: "string \<Rightarrow> json \<Rightarrow> json option" where
  "field k (JObj kvs) = map_of kvs k"
| "field k JNull = None"
| "field k (JBool b) = None"
| "field k (JNum n) = None"
| "field k (JStr s) = None"
| "field k (JArr xs) = None"

text \<open>
  The shape of the localization file: every locale code maps to a record, and a
  \<^verbatim>\<open>responses\<close> field, where a record has one, is a record again.
\<close>

fun locale_record :: "json \<Rightarrow> bool" where
  "locale_record (JObj kvs) =
     (case map_of kvs ''responses'' of None \<Rightarrow> True | Some r \<Rightarrow> is_record r)"
| "locale_record JNull = False"
| "locale_record (JBool b) = False"
| "locale_record (JNum n) = False"
| "locale_record (JStr s) = False"
| "locale_record (JArr xs) = False"

definition localization_table :: "(string \<times> json) list \<Rightarrow> bool" where
  "localization_table t = list_all locale_record (map snd t)"

section \<open>Example inputs\<close>

text \<open>
  A localization table with three locales: one defines \<^verbatim>\<open>altTextError\<close>, one has no
  \<^verbatim>\<open>responses\<close>, one has \<^verbatim>\<open>responses\<close> without \<^verbatim>\<open>altTextError\<close>.
\<close>

definition table_three :: "(string \<times> json) list" where
  "table_three =
     [(''en'', JObj [(''responses'', JObj [(''altTextError'', JStr ''No alt text!'')])]),
      (''de'', JObj [(''name'', JStr ''Deutsch'')]),
      (''fr'', JObj [(''responses'', JObj [(''hello'', JStr ''Bonjour'')])])]"

text \<open>A table in which no locale defines \<^verbatim>\<open>altTextError\<close>, and one more locale that does.\<close>

definition table_silent :: "(string \<times> json) list" where
  "table_silent =
     [(''de'', JObj [(''name'', JStr ''Deutsch'')]),
      (''fr'', JObj [(''responses'', JObj [(''hello'', JStr ''Bonjour'')])])]"

definition table_de :: "(string \<times> json) list" where
  "table_de =
     [(''de'', JObj [(''responses'', JObj [(''altTextError'', JStr ''Kein Alt-Text!'')])])]"

text \<open>A locale whose \<^verbatim>\<open>altTextError\<close> is a list of strings.\<close>

definition table_list :: "(string \<times> json) list" where
  "table_list =
     [(''es'', JObj [(''responses'', JObj [(''altTextError'',
         JArr [JStr ''Sin texto alternativo'', JStr ''Falta el texto alternativo''])])])]"

definition bad_status :: status where
  "bad_status = \<lparr>content = ''<p>No alt text!</p>''\<rparr>"

definition good_status :: status where
  "good_status = \<lparr>content = ''<p>A cat on a sofa.</p>''\<rparr>"

definition both_status :: status where
  "both_status = \<lparr>content = ''<p>No alt text! Kein Alt-Text!</p>''\<rparr>"

definition cfg_example :: config where
  "cfg_example =
     \<lparr>mods = ''@mod'', test = True, number_of_statuses = 20, threshold_of_errors = 5\<rparr>"

text \<open>Six of the twenty fetched statuses carry the error phrase; every call succeeds.\<close>

definition world_example :: world where
  "world_example =
     \<lparr>account_lookup = (\<lambda>acct. Inr \<lparr>id = 1\<rparr>),
      account_statuses = (\<lambda>i limit. Inr (replicate 6 bad_status @ replicate 14 good_status)),
      json_load = Inr (JObj table_three),
      status_post = (\<lambda>st sp. Inr ())\<rparr>"

text \<open>The remote service fails when the statuses are fetched.\<close>

definition world_down :: world where
  "world_down =
     \<lparr>account_lookup = (\<lambda>acct. Inr \<lparr>id = 1\<rparr>),
      account_statuses = (\<lambda>i limit. Inl MastodonError),
      json_load = Inr (JObj table_three),
      status_post = (\<lambda>st sp. Inr ())\<rparr>"

section \<open>Properties of the substring test\<close>

lemma str_in_sublist: "str_in p s = sublist p s"
  by (induction s) (simp_all add: sublist_Cons_right)

lemma str_in_iff: "str_in p s \<longleftrightarrow> (\<exists>u v. s = u @ p @ v)"
  by (simp add: str_in_sublist sublist_def)

section \<open>Properties of the extraction\<close>

lemma set_map_filter: "set (List.map_filter f xs) = {y. \<exists>x\<in>set xs. f x = Some y}"
  by (induction xs) (auto split: option.splits)

lemma field_Some: "field k v = Some x \<longleftrightarrow> (\<exists>kvs. v = JObj kvs \<and> map_of kvs k = Some x)"
  by (cases v) simp_all

text \<open>On records a comprehension never raises: it collects the field where present.\<close>

lemma select_field_records:
  "list_all is_record vals \<Longrightarrow> select_field k vals = Inr (List.map_filter (field k) vals)"
proof (induction vals)
  case Nil
  then show ?case by simp
next
  case (Cons v vs)
  then obtain kvs where v: "v = JObj kvs" by (cases v) simp_all
  show ?case
  proof (cases "map_of kvs k")
    case None
    then have "k \<notin> set (map fst kvs)" by (simp add: map_of_eq_None_iff)
    with Cons v None show ?thesis by simp
  next
    case (Some x)
    then have "k \<in> set (map fst kvs)" by (metis map_of_eq_None_iff option.distinct(1) set_map)
    with Cons v Some show ?thesis by simp
  qed
qed

text \<open>
  On any values: a comprehension that does not raise has collected the field of the
  records that have it, and nothing from a value that is not a record.
\<close>

lemma select_field_Inr:
  "select_field k vals = Inr vs \<Longrightarrow> vs = List.map_filter (field k) vals"
proof (induction vals arbitrary: vs)
  case Nil
  then show ?case by simp
next
  case (Cons v vals)
  show ?case
  proof (cases v)
    case (JObj kvs)
    show ?thesis
    proof (cases "map_of kvs k")
      case None
      then have "k \<notin> set (map fst kvs)" by (simp add: map_of_eq_None_iff)
      with Cons JObj None show ?thesis by simp
    next
      case (Some x)
      then have "k \<in> set (map fst kvs)" by (metis map_of_eq_None_iff option.distinct(1) set_map)
      with Cons JObj Some show ?thesis by (auto split: sum.splits)
    qed
  qed (use Cons in \<open>auto split: if_splits\<close>)
qed

lemma error_responses_Inr:
  assumes "error_responses (JObj t) = Inr ps"
  shows "ps = List.map_filter (field ''altTextError'')
                (List.map_filter (field ''responses'') (map snd t))"
proof -
  from assms obtain rs where rs: "select_field temp1 (map snd t) = Inr rs"
      "select_field temp2 rs = Inr ps"
    by (auto simp: error_responses_def responses_def split: sum.splits)
  from select_field_Inr[OF rs(1)] select_field_Inr[OF rs(2)]
  show ?thesis by (simp add: temp1_def temp2_def)
qed

lemma table_records: "localization_table t \<Longrightarrow> list_all is_record (map snd t)"
  unfolding localization_table_def list_all_iff
proof
  fix v assume a: "\<forall>x\<in>set (map snd t). locale_record x" and "v \<in> set (map snd t)"
  then have "locale_record v" by blast
  then show "is_record v" by (cases v) simp_all
qed

lemma table_responses_records:
  "localization_table t \<Longrightarrow>
   list_all is_record (List.map_filter (field ''responses'') (map snd t))"
  unfolding localization_table_def list_all_iff
proof
  fix r assume a: "\<forall>x\<in>set (map snd t). locale_record x"
    and "r \<in> set (List.map_filter (field ''responses'') (map snd t))"
  then obtain v where v: "v \<in> set (map snd t)" "field ''responses'' v = Some r"
    by (auto simp: set_map_filter)
  with a have "locale_record v" by blast
  with v(2) show "is_record r" by (cases v) simp_all
qed

lemma error_responses_table:
  assumes "localization_table t"
  shows "error_responses (JObj t) =
         Inr (List.map_filter (field ''altTextError'')
                (List.map_filter (field ''responses'') (map snd t)))"
  using select_field_records[OF table_records[OF assms], of temp1]
        select_field_records[OF table_responses_records[OF assms], of temp2]
  by (simp add: error_responses_def responses_def temp1_def temp2_def)

lemma alt_text_errors_set:
  "set (List.map_filter (field ''altTextError'')
          (List.map_filter (field ''responses'') (map snd t))) =
   {x. \<exists>loc fs rs. (loc, JObj fs) \<in> set t \<and>
          map_of fs ''responses'' = Some (JObj rs) \<and>
          map_of rs ''altTextError'' = Some x}"
  (is "set ?ps = ?S")
proof (intro set_eqI iffI)
  fix x assume "x \<in> set ?ps"
  then obtain r where r: "r \<in> set (List.map_filter (field ''responses'') (map snd t))"
      "field ''altTextError'' r = Some x"
    by (auto simp: set_map_filter)
  then obtain v where v: "v \<in> set (map snd t)" "field ''responses'' v = Some r"
    by (auto simp: set_map_filter)
  from r(2) obtain rs where rs: "r = JObj rs" "map_of rs ''altTextError'' = Some x"
    by (auto simp: field_Some)
  from v(2) obtain fs where fs: "v = JObj fs" "map_of fs ''responses'' = Some r"
    by (auto simp: field_Some)
  from v(1) obtain loc where "(loc, v) \<in> set t" by auto
  with rs fs show "x \<in> ?S" by blast
next
  fix x assume "x \<in> ?S"
  then obtain loc fs rs where h: "(loc, JObj fs) \<in> set t"
      "map_of fs ''responses'' = Some (JObj rs)" "map_of rs ''altTextError'' = Some x"
    by blast
  from h(1) have "JObj fs \<in> set (map snd t)" by force
  moreover from h(2) have "field ''responses'' (JObj fs) = Some (JObj rs)" by simp
  ultimately have "JObj rs \<in> set (List.map_filter (field ''responses'') (map snd t))"
    unfolding set_map_filter by blast
  moreover from h(3) have "field ''altTextError'' (JObj rs) = Some x" by simp
  ultimately show "x \<in> set ?ps"
    unfolding set_map_filter by blast
qed

section \<open>Properties of the counting loops\<close>

lemma in_content_not_str: "\<not> is_str e \<Longrightarrow> in_content e c = Inl TypeError"
  by (cases e) simp_all

lemma count_in_content_strs:
  "list_all is_str errs \<Longrightarrow> count_in_content errs c k = Inr (k + int (hits errs c))"
proof (induction errs arbitrary: k)
  case Nil
  then show ?case by (simp add: hits_def)
next
  case (Cons e es)
  then obtain s where "e = JStr s" by (cases e) simp_all
  with Cons show ?case by (simp add: hits_def)
qed

lemma count_in_content_not_strs:
  "\<not> list_all is_str errs \<Longrightarrow> count_in_content errs c k = Inl TypeError"
proof (induction errs arbitrary: k)
  case Nil
  then show ?case by simp
next
  case (Cons e es)
  show ?case
  proof (cases "is_str e")
    case True
    then obtain s where "e = JStr s" by (cases e) simp_all
    with Cons True show ?thesis by simp
  next
    case False
    then show ?thesis by (simp add: in_content_not_str)
  qed
qed

lemma status_loop_strs:
  "list_all is_str errs \<Longrightarrow> \<forall>i\<in>set is. i < length sts \<Longrightarrow>
   status_loop is sts errs k = Inr (k + (\<Sum>i\<leftarrow>is. int (hits errs (content (sts ! i)))))"
  by (induction "is" arbitrary: k) (simp_all add: count_in_content_strs)

text \<open>
  When the loop runs over exactly the fetched statuses and every phrase is a \<^verbatim>\<open>str\<close>,
  the count is the number of pairs of a status and a phrase entry found in it.
\<close>

lemma error_count_full_strs:
  assumes "list_all is_str errs" "int (length sts) = n"
  shows "error_count n sts errs = Inr (\<Sum>s\<leftarrow>sts. int (hits errs (content s)))"
proof -
  have "nat n = length sts" using assms(2) by auto
  then have r: "py_range n = [0..<length sts]" by (simp add: py_range_def)
  have "map (\<lambda>i. int (hits errs (content (sts ! i)))) [0..<length sts]
        = map (\<lambda>s. int (hits errs (content s))) sts"
    by (rule nth_equalityI) simp_all
  with status_loop_strs[OF assms(1), of "[0..<length sts]" sts 0] r
  show ?thesis by (simp add: error_count_def)
qed

lemma hits_mono: "mset P \<subseteq># mset Q \<Longrightarrow> hits P c \<le> hits Q c"
proof -
  assume "mset P \<subseteq># mset Q"
  then have "filter_mset (\<lambda>e. in_content e c = Inr True) (mset P)
             \<subseteq># filter_mset (\<lambda>e. in_content e c = Inr True) (mset Q)"
    by (rule multiset_filter_mono)
  then have "size (filter_mset (\<lambda>e. in_content e c = Inr True) (mset P))
             \<le> size (filter_mset (\<lambda>e. in_content e c = Inr True) (mset Q))"
    by (rule size_mset_mono)
  then show ?thesis
    by (simp only: hits_def mset_filter[symmetric] size_mset)
qed

lemma all_str_mono:
  "mset P \<subseteq># mset Q \<Longrightarrow> list_all is_str Q \<Longrightarrow> list_all is_str P"
  by (metis list_all_iff mset_subset_eqD set_mset_mset)

lemma status_loop_mono:
  assumes "mset P \<subseteq># mset Q"
  shows "status_loop is sts Q k = Inr cq \<Longrightarrow> k' \<le> k \<Longrightarrow>
         \<exists>cp. status_loop is sts P k' = Inr cp \<and> cp \<le> cq"
proof (induction "is" arbitrary: k k')
  case Nil
  then show ?case by simp
next
  case (Cons i js)
  from Cons.prems(1) have i: "i < length sts" by (simp split: if_splits)
  from Cons.prems(1) i have q: "list_all is_str Q"
    using count_in_content_not_strs[of Q "content (sts ! i)" k]
    by (cases "list_all is_str Q") auto
  then have p: "list_all is_str P" using assms all_str_mono by blast
  have h: "hits P (content (sts ! i)) \<le> hits Q (content (sts ! i))"
    using assms by (rule hits_mono)
  from Cons.prems(1) i q
  have "status_loop js sts Q (k + int (hits Q (content (sts ! i)))) = Inr cq"
    by (simp add: count_in_content_strs)
  moreover have "k' + int (hits P (content (sts ! i))) \<le> k + int (hits Q (content (sts ! i)))"
    using h Cons.prems(2) by simp
  ultimately obtain cp
    where "status_loop js sts P (k' + int (hits P (content (sts ! i)))) = Inr cp" "cp \<le> cq"
    using Cons.IH by blast
  with i p show ?case by (simp add: count_in_content_strs)
qed

text \<open>With one phrase, the count over the whole list is the number of statuses that contain it.\<close>

lemma sum_list_indicator:
  "(\<Sum>x\<leftarrow>xs. (if P x then 1 else 0 :: int)) = int (length (filter P xs))"
  by (induction xs) simp_all

lemma hits_single:
  "int (hits [JStr p] c) = (if (\<exists>u v. c = u @ p @ v) then 1 else 0)"
  by (simp add: hits_def str_in_iff)

lemma error_count_single_phrase:
  "error_count (int (length sts)) sts [JStr p] =
     Inr (int (length (filter (\<lambda>s. \<exists>u v. content s = u @ p @ v) sts)))"
proof -
  have "list_all is_str [JStr p]" by simp
  from error_count_full_strs[OF this, of sts "int (length sts)"]
  have "error_count (int (length sts)) sts [JStr p] =
          Inr (\<Sum>s\<leftarrow>sts. int (hits [JStr p] (content s)))" by simp
  also have "(\<Sum>s\<leftarrow>sts. int (hits [JStr p] (content s))) =
             (\<Sum>s\<leftarrow>sts. (if (\<exists>u v. content s = u @ p @ v) then 1 else 0))"
    by (simp only: hits_single)
  also have "\<dots> = int (length (filter (\<lambda>s. \<exists>u v. content s = u @ p @ v) sts))"
    by (rule sum_list_indicator)
  finally show ?thesis .
qed

lemma error_count_returns:
  assumes "list_all is_str Q" "nat n \<le> length sts"
  shows "\<exists>cq. error_count n sts Q = Inr cq"
proof -
  have "\<forall>i\<in>set (py_range n). i < length sts"
    using assms(2) by (auto simp: py_range_def)
  from status_loop_strs[OF assms(1) this, of 0] show ?thesis
    by (simp add: error_count_def)
qed

lemma select_field_append:
  "select_field k (xs @ ys) = Inr r \<Longrightarrow>
   \<exists>r1 r2. select_field k xs = Inr r1 \<and> select_field k ys = Inr r2 \<and> r = r1 @ r2"
proof (induction xs arbitrary: r)
  case Nil
  then show ?case by simp
next
  case (Cons x xs)
  from Cons.prems obtain b where b: "py_in k x = Inr b"
    by (cases "py_in k x") simp_all
  show ?case
  proof (cases b)
    case False
    with b Cons show ?thesis by simp
  next
    case True
    with b Cons.prems obtain v where v: "py_getitem x k = Inr v"
      by (cases "py_getitem x k") simp_all
    with b True Cons.prems obtain r' where r': "select_field k (xs @ ys) = Inr r'" "r = v # r'"
      by (cases "select_field k (xs @ ys)") auto
    from Cons.IH[OF r'(1)] obtain r1 r2 where
      "select_field k xs = Inr r1" "select_field k ys = Inr r2" "r' = r1 @ r2" by blast
    with b True v r'(2) show ?thesis by simp
  qed
qed

lemma error_responses_append:
  assumes "error_responses (JObj (t @ t')) = Inr Q"
  shows "\<exists>P P'. error_responses (JObj t) = Inr P \<and> Q = P @ P'"
proof -
  from assms obtain rs where rs: "select_field temp1 (map snd t @ map snd t') = Inr rs"
      "select_field temp2 rs = Inr Q"
    by (auto simp: error_responses_def responses_def split: sum.splits)
  from select_field_append[OF rs(1)] obtain r1 r2 where
    r: "select_field temp1 (map snd t) = Inr r1" "rs = r1 @ r2" by blast
  from rs(2) r(2) have "select_field temp2 (r1 @ r2) = Inr Q" by simp
  from select_field_append[OF this] obtain q1 q2 where
    q: "select_field temp2 r1 = Inr q1" "Q = q1 @ q2" by blast
  from r(1) q(1) have "error_responses (JObj t) = Inr q1"
    by (simp add: error_responses_def responses_def)
  with q(2) show ?thesis by blast
qed

section \<open>Properties of a run\<close>

lemma posts_run:
  "snd (count_errors cfg w) = Inr cnt \<Longrightarrow>
   posts (run cfg w) =
     [StatusPost (compose_status cnt (threshold_of_errors cfg) (mods cfg))
        (if test cfg then Some ''testing'' else None)]"
proof -
  assume a: "snd (count_errors cfg w) = Inr cnt"
  obtain calls where c: "count_errors cfg w = (calls, Inr cnt)"
    using a by (cases "count_errors cfg w") simp
  have "filter is_post calls = []"
    using c by (auto simp: count_errors_def Let_def split: sum.splits)
  with c show ?thesis
    by (simp add: run_def posts_def report_def)
qed

lemma posts_run_fail:
  "snd (count_errors cfg w) = Inl e \<Longrightarrow> posts (run cfg w) = []"
proof -
  assume a: "snd (count_errors cfg w) = Inl e"
  obtain calls where c: "count_errors cfg w = (calls, Inl e)"
    using a by (cases "count_errors cfg w") simp
  have "filter is_post calls = []"
    using c by (auto simp: count_errors_def Let_def split: sum.splits)
  with c show ?thesis
    by (simp add: run_def posts_def)
qed

lemma count_errors_test: "count_errors (cfg\<lparr>test := b\<rparr>) w = count_errors cfg w"
  by (simp add: count_errors_def Let_def split: sum.splits)

text \<open>The example run, evaluated.\<close>

lemma error_responses_three:
  "error_responses (JObj table_three) = Inr [JStr ''No alt text!'']"
  by (simp add: table_three_def error_responses_def responses_def temp1_def temp2_def)

lemma error_count_example:
  "error_count 20 (replicate 6 bad_status @ replicate 14 good_status)
     [JStr ''No alt text!''] = Inr 6"
  by code_simp

lemma count_errors_example:
  "count_errors cfg_example world_example =
     ([AccountLookup ''altbot'', AccountStatuses 1 20], Inr 6)"
  by (simp add: count_errors_def cfg_example_def world_example_def
      error_responses_three error_count_example)

lemma count_errors_down:
  "snd (count_errors cfg_example world_down) = Inl MastodonError"
  by (simp add: count_errors_def cfg_example_def world_down_def)

section \<open>The claims\<close>

text \<open>
  Claim C1: the count equals the number of statuses whose content contains at least one
  phrase; a status that contains several phrases contributes 1.

  The loop has no \<^verbatim>\<open>break\<close>: it adds 1 for every phrase found in a status. One status
  whose content contains two phrases gives the count 2, although one status contains a
  phrase.
\<close>

theorem counts_every_phrase:
  "error_count 1 [both_status] [JStr ''No alt text!'', JStr ''Kein Alt-Text!''] = Inr 2 \<and>
   length (filter (\<lambda>s. str_in ''No alt text!'' (content s) \<or>
                        str_in ''Kein Alt-Text!'' (content s)) [both_status]) = 1"
  by (simp add: error_count_def py_range_def both_status_def)

text \<open>
  Claim C2: when fewer statuses are fetched than \<^verbatim>\<open>number_of_statuses\<close>, the matching
  step does not raise an out-of-range error and counts over the statuses returned.

  The loop runs over \<^verbatim>\<open>range(number_of_statuses)\<close> whatever was fetched: with two
  fetched statuses and \<^verbatim>\<open>number_of_statuses = 20\<close> it raises \<^verbatim>\<open>IndexError\<close> at
  index 2, and there is no count.
\<close>

theorem short_fetch_raises:
  "error_count 20 [bad_status, good_status] [JStr ''No alt text!''] = Inl IndexError"
  by (simp add: error_count_def py_range_def upt_conv_Cons bad_status_def good_status_def)

text \<open>
  Claim C3: if the count is at least the threshold, the composed message starts with the
  alert sentence (\<^verbatim>\<open>@altbot is throwing errors.\<close>, a line break, \<^verbatim>\<open> Pinging \<close>) and ends
  with the mentions string; otherwise it is exactly \<^verbatim>\<open>All is fine\<close>.
\<close>

theorem compose_status_message:
  "(threshold \<le> cnt \<longrightarrow>
      prefix (''@altbot is throwing errors.'' @ [CHR 0x0A] @ '' Pinging '')
             (compose_status cnt threshold ms) \<and>
      suffix ms (compose_status cnt threshold ms)) \<and>
   (\<not> threshold \<le> cnt \<longrightarrow> compose_status cnt threshold ms = ''All is fine'')"
proof (cases "threshold \<le> cnt")
  case True
  then have c: "compose_status cnt threshold ms = alert_sentence @ ms"
    by (simp add: compose_status_def)
  have "prefix alert_sentence (compose_status cnt threshold ms)"
    unfolding c by simp
  moreover have "suffix ms (compose_status cnt threshold ms)"
    unfolding c by (rule suffixI) simp
  ultimately show ?thesis
    using True by (simp add: alert_sentence_def)
next
  case False
  then show ?thesis
    by (simp add: compose_status_def all_is_fine_def)
qed

theorem compose_status_message_witness:
  "(5::int) \<le> 6 \<and> \<not> (5::int) \<le> 3 \<and>
   compose_status 6 5 ''@mod'' = ''@altbot is throwing errors.'' @ [CHR 0x0A] @ '' Pinging @mod'' \<and>
   prefix (''@altbot is throwing errors.'' @ [CHR 0x0A] @ '' Pinging '') (compose_status 6 5 ''@mod'') \<and>
   suffix ''@mod'' (compose_status 6 5 ''@mod'') \<and>
   compose_status 3 5 ''@mod'' = ''All is fine''"
  using compose_status_message [of 5 6 "''@mod''"] compose_status_message [of 5 3 "''@mod''"]
  by (simp add: compose_status_def alert_sentence_def)

text \<open>
  Claim C4: the extracted phrases are exactly the \<^verbatim>\<open>altTextError\<close> values of the locale
  records that have a \<^verbatim>\<open>responses\<close> record with an \<^verbatim>\<open>altTextError\<close> field.

  On a table of the expected shape the extraction returns; and on every table on which
  it returns, the collection it returns holds exactly those values.
\<close>

theorem error_responses_exact:
  "(localization_table t \<longrightarrow> (\<exists>ps. error_responses (JObj t) = Inr ps)) \<and>
   (\<forall>ps. error_responses (JObj t) = Inr ps \<longrightarrow>
      set ps = {x. \<exists>loc fs rs. (loc, JObj fs) \<in> set t \<and>
                     map_of fs ''responses'' = Some (JObj rs) \<and>
                     map_of rs ''altTextError'' = Some x})"
proof (intro conjI impI allI)
  assume "localization_table t"
  then show "\<exists>ps. error_responses (JObj t) = Inr ps"
    by (simp add: error_responses_table)
next
  fix ps assume "error_responses (JObj t) = Inr ps"
  then have "ps = List.map_filter (field ''altTextError'')
                    (List.map_filter (field ''responses'') (map snd t))"
    by (rule error_responses_Inr)
  then show "set ps = {x. \<exists>loc fs rs. (loc, JObj fs) \<in> set t \<and>
                     map_of fs ''responses'' = Some (JObj rs) \<and>
                     map_of rs ''altTextError'' = Some x}"
    by (simp only: alt_text_errors_set)
qed


theorem error_responses_exact_witness:
  "localization_table table_three \<and>
   error_responses (JObj table_three) = Inr [JStr ''No alt text!''] \<and>
   {x. \<exists>loc fs rs. (loc, JObj fs) \<in> set table_three \<and>
          map_of fs ''responses'' = Some (JObj rs) \<and>
          map_of rs ''altTextError'' = Some x} = {JStr ''No alt text!''}"
proof -
  have t: "localization_table table_three"
    by (simp add: localization_table_def table_three_def)
  have e: "error_responses (JObj table_three) = Inr [JStr ''No alt text!'']"
    by (simp add: table_three_def error_responses_def responses_def temp1_def temp2_def)
  from error_responses_exact [of table_three] e
  have "set [JStr ''No alt text!''] =
        {x. \<exists>loc fs rs. (loc, JObj fs) \<in> set table_three \<and>
               map_of fs ''responses'' = Some (JObj rs) \<and>
               map_of rs ''altTextError'' = Some x}"
    by blast
  then have "{x. \<exists>loc fs rs. (loc, JObj fs) \<in> set table_three \<and>
               map_of fs ''responses'' = Some (JObj rs) \<and>
               map_of rs ''altTextError'' = Some x} = {JStr ''No alt text!''}"
    by (simp only: list.set)
  with t e show ?thesis by (intro conjI)
qed

text \<open>
  Claim C5: with the test flag set the post carries the spoiler text \<^verbatim>\<open>testing\<close>,
  without it the post carries no spoiler text, and the posted text is the same composed
  message in both cases, whichever of the two messages it is.

  Stated for every run that reaches the last lines with a count \<open>cnt\<close>.
\<close>

theorem test_mode_annotation:
  assumes "snd (count_errors cfg w) = Inr cnt"
  shows "posts (run (cfg\<lparr>test := True\<rparr>) w) =
           [StatusPost (compose_status cnt (threshold_of_errors cfg) (mods cfg))
              (Some ''testing'')] \<and>
         posts (run (cfg\<lparr>test := False\<rparr>) w) =
           [StatusPost (compose_status cnt (threshold_of_errors cfg) (mods cfg)) None]"
proof -
  have "snd (count_errors (cfg\<lparr>test := True\<rparr>) w) = Inr cnt"
       "snd (count_errors (cfg\<lparr>test := False\<rparr>) w) = Inr cnt"
    using assms by (simp_all add: count_errors_test)
  from posts_run[OF this(1)] posts_run[OF this(2)] show ?thesis by simp
qed

theorem test_mode_annotation_witness:
  "snd (count_errors cfg_example world_example) = Inr 6 \<and>
   posts (run (cfg_example\<lparr>test := True\<rparr>) world_example) =
     [StatusPost (''@altbot is throwing errors.'' @ [CHR 0x0A] @ '' Pinging @mod'')
        (Some ''testing'')] \<and>
   posts (run (cfg_example\<lparr>test := False\<rparr>) world_example) =
     [StatusPost (''@altbot is throwing errors.'' @ [CHR 0x0A] @ '' Pinging @mod'') None]"
proof -
  have h: "snd (count_errors cfg_example world_example) = Inr 6" by (simp add: count_errors_example)
  have c: "compose_status 6 (threshold_of_errors cfg_example) (mods cfg_example) =
           ''@altbot is throwing errors.'' @ [CHR 0x0A] @ '' Pinging @mod''"
    by (simp add: compose_status_def cfg_example_def alert_sentence_def)
  show ?thesis using h test_mode_annotation [OF h] unfolding c by simp
qed

text \<open>
  Claim C6: the matcher's test on a status is a literal, case-sensitive substring test on
  the raw content, with nothing applied to the content before the test. Counting with
  one phrase over the fetched statuses gives the number of statuses whose content is some
  text, the phrase, and some text; a status is counted exactly in that case. A phrase
  that differs in letter case or in the number of blanks is not found, and a phrase
  inside the markup is.
\<close>

theorem per_status_test:
  "error_count (int (length sts)) sts [JStr p] =
     Inr (int (length (filter (\<lambda>s. \<exists>u v. content s = u @ p @ v) sts))) \<and>
   error_count 1 [s] [JStr p] = Inr (if (\<exists>u v. content s = u @ p @ v) then 1 else 0) \<and>
   error_count 1 [\<lparr>content = ''<p>no alt text</p>''\<rparr>] [JStr ''No alt text''] = Inr 0 \<and>
   error_count 1 [\<lparr>content = ''<span>ok</span>''\<rparr>] [JStr ''span''] = Inr 1 \<and>
   error_count 1 [\<lparr>content = ''<p>No  alt text</p>''\<rparr>] [JStr ''No alt text''] = Inr 0"
proof (intro conjI)
  show "error_count (int (length sts)) sts [JStr p] =
     Inr (int (length (filter (\<lambda>s. \<exists>u v. content s = u @ p @ v) sts)))"
    by (rule error_count_single_phrase)
  show "error_count 1 [s] [JStr p] = Inr (if (\<exists>u v. content s = u @ p @ v) then 1 else 0)"
    using error_count_single_phrase[of "[s]" p] by simp
  show "error_count 1 [\<lparr>content = ''<p>no alt text</p>''\<rparr>] [JStr ''No alt text''] = Inr 0"
    by (simp add: error_count_def py_range_def)
  show "error_count 1 [\<lparr>content = ''<span>ok</span>''\<rparr>] [JStr ''span''] = Inr 1"
    by (simp add: error_count_def py_range_def)
  show "error_count 1 [\<lparr>content = ''<p>No  alt text</p>''\<rparr>] [JStr ''No alt text''] = Inr 0"
    by (simp add: error_count_def py_range_def)
qed

text \<open>
  Claim C7: on a table in which no locale defines \<^verbatim>\<open>altTextError\<close> the extraction
  returns an empty collection, the count is 0 for every status sequence, and the
  all-clear message is composed.

  The extraction does return the empty collection. The count is not 0 for every status
  sequence: with one fetched status and \<^verbatim>\<open>number_of_statuses = 20\<close> the loop raises
  \<^verbatim>\<open>IndexError\<close> at index 1 and nothing is composed.
\<close>

theorem silent_table_short_fetch:
  "error_responses (JObj table_silent) = Inr [] \<and>
   error_count 20 [good_status] [] = Inl IndexError"
  by (simp add: table_silent_def error_responses_def responses_def temp1_def temp2_def
      error_count_def py_range_def upt_conv_Cons)

text \<open>
  Claim C8, as amended: a run that reaches the end of the counting loop issues exactly
  one create-status call, whichever message is composed and whatever the test flag is; a
  run that an exception ends before that issues none.
\<close>

theorem one_post_after_counting:
  "(\<forall>cnt. snd (count_errors cfg w) = Inr cnt \<longrightarrow> length (posts (run cfg w)) = 1) \<and>
   (\<forall>e. snd (count_errors cfg w) = Inl e \<longrightarrow> posts (run cfg w) = [])"
  using posts_run[of cfg w] posts_run_fail[of cfg w] by simp

theorem one_post_after_counting_witness:
  "snd (count_errors cfg_example world_example) = Inr 6 \<and>
   length (posts (run cfg_example world_example)) = 1 \<and>
   snd (count_errors cfg_example world_down) = Inl MastodonError \<and>
   posts (run cfg_example world_down) = []"
proof -
  have h: "snd (count_errors cfg_example world_example) = Inr 6" by (simp add: count_errors_example)
  have d: "snd (count_errors cfg_example world_down) = Inl MastodonError"
    by (rule count_errors_down)
  show ?thesis
    using h d one_post_after_counting [of cfg_example world_example]
      one_post_after_counting [of cfg_example world_down]
    by simp
qed

text \<open>
  Claim C8 as stated (every run issues exactly one create-status call) fails: when
  fetching the statuses raises, the exception ends the run and nothing is posted.
\<close>

theorem run_without_post: "length (posts (run cfg_example world_down)) \<noteq> 1"
  by (simp add: run_def posts_def count_errors_def cfg_example_def world_down_def)

text \<open>
  Claim C9: for two status sequences that are permutations of each other, both iterated
  in full (\<^verbatim>\<open>number_of_statuses\<close> is their length), the loop gives the same result for
  every list of phrases.
\<close>

theorem error_count_permutation:
  assumes "mset xs = mset ys" "int (length xs) = n"
  shows "error_count n xs errs = error_count n ys errs"
proof (cases "list_all is_str errs")
  case True
  have l: "int (length ys) = n" using assms by (metis size_mset)
  have "mset (map (\<lambda>s. int (hits errs (content s))) xs) =
        mset (map (\<lambda>s. int (hits errs (content s))) ys)"
    using assms(1) by (metis mset_map)
  then have "(\<Sum>s\<leftarrow>xs. int (hits errs (content s))) = (\<Sum>s\<leftarrow>ys. int (hits errs (content s)))"
    by (metis sum_mset_sum_list)
  then show ?thesis
    using error_count_full_strs[OF True assms(2)] error_count_full_strs[OF True l] by simp
next
  case False
  have l: "length ys = length xs" using assms by (metis size_mset)
  show ?thesis
  proof (cases "xs = []")
    case True
    with l assms show ?thesis by simp
  next
    case nonempty: False
    then have "0 < length xs" by simp
    then have r: "py_range n = 0 # [1..<length xs]"
      using assms(2) by (auto simp: py_range_def upt_conv_Cons)
    show ?thesis
      using False nonempty l r by (simp add: error_count_def count_in_content_not_strs)
  qed
qed

theorem error_count_permutation_witness:
  "mset [bad_status, good_status, bad_status] = mset [good_status, bad_status, bad_status] \<and>
   int (length [bad_status, good_status, bad_status]) = 3 \<and>
   error_count 3 [bad_status, good_status, bad_status] [JStr ''No alt text!''] = Inr 2 \<and>
   error_count 3 [good_status, bad_status, bad_status] [JStr ''No alt text!''] = Inr 2"
proof -
  have m: "mset [bad_status, good_status, bad_status] = mset [good_status, bad_status, bad_status]"
    by simp
  have l: "int (length [bad_status, good_status, bad_status]) = 3" by simp
  have e: "error_count 3 [bad_status, good_status, bad_status] [JStr ''No alt text!''] = Inr 2"
    by (simp add: error_count_def py_range_def upt_conv_Cons bad_status_def good_status_def)
  show ?thesis
    using m l e error_count_permutation [OF m l, of "[JStr ''No alt text!'']"] by simp
qed

text \<open>
  Claim C10, as amended: the count is monotone in the phrases wherever counting with the
  larger collection returns a count. If every phrase occurs in \<open>Q\<close> at least as often as
  in \<open>P\<close> and the loop returns a count with \<open>Q\<close>, it returns a count with \<open>P\<close> that is
  not larger; so a table enlarged by further locales, when counting with it returns a
  count, gives one that is not smaller. Counting with \<open>Q\<close> returns a count whenever every
  entry of \<open>Q\<close> is a \<^verbatim>\<open>str\<close> and at least \<^verbatim>\<open>number_of_statuses\<close> statuses were fetched.
\<close>

theorem error_count_mono:
  "(mset P \<subseteq># mset Q \<and> error_count n sts Q = Inr cq \<longrightarrow>
      (\<exists>cp. error_count n sts P = Inr cp \<and> cp \<le> cq)) \<and>
   (error_responses (JObj (t @ t')) = Inr Q' \<and> error_count n sts Q' = Inr cq' \<longrightarrow>
      (\<exists>P' cp. error_responses (JObj t) = Inr P' \<and> error_count n sts P' = Inr cp \<and> cp \<le> cq')) \<and>
   (list_all is_str Q \<and> nat n \<le> length sts \<longrightarrow> (\<exists>c. error_count n sts Q = Inr c))"
proof (intro conjI impI)
  assume a: "mset P \<subseteq># mset Q \<and> error_count n sts Q = Inr cq"
  then have "status_loop (py_range n) sts Q 0 = Inr cq" by (simp add: error_count_def)
  from status_loop_mono[OF conjunct1[OF a] this, of 0]
  show "\<exists>cp. error_count n sts P = Inr cp \<and> cp \<le> cq" by (simp add: error_count_def)
next
  assume a: "error_responses (JObj (t @ t')) = Inr Q' \<and> error_count n sts Q' = Inr cq'"
  from error_responses_append[OF conjunct1[OF a]] obtain P' R where
    p: "error_responses (JObj t) = Inr P'" "Q' = P' @ R" by blast
  then have m: "mset P' \<subseteq># mset Q'" by simp
  from a have "status_loop (py_range n) sts Q' 0 = Inr cq'" by (simp add: error_count_def)
  from status_loop_mono[OF m this, of 0] obtain cp where
    "error_count n sts P' = Inr cp" "cp \<le> cq'" by (auto simp: error_count_def)
  with p(1) show "\<exists>P' cp. error_responses (JObj t) = Inr P' \<and> error_count n sts P' = Inr cp \<and> cp \<le> cq'"
    by blast
next
  assume "list_all is_str Q \<and> nat n \<le> length sts"
  then show "\<exists>c. error_count n sts Q = Inr c"
    using error_count_returns by blast
qed

theorem error_count_mono_witness:
  "mset [JStr ''No alt text!''] \<subseteq># mset [JStr ''No alt text!'', JStr ''Kein Alt-Text!''] \<and>
   list_all is_str [JStr ''No alt text!'', JStr ''Kein Alt-Text!''] \<and>
   nat 2 \<le> length [both_status, bad_status] \<and>
   error_count 2 [both_status, bad_status] [JStr ''No alt text!'', JStr ''Kein Alt-Text!''] = Inr 3 \<and>
   error_responses (JObj (table_three @ table_de)) = Inr [JStr ''No alt text!'', JStr ''Kein Alt-Text!''] \<and>
   error_responses (JObj table_three) = Inr [JStr ''No alt text!''] \<and>
   (\<exists>cp. error_count 2 [both_status, bad_status] [JStr ''No alt text!''] = Inr cp \<and> cp \<le> 3)"
proof -
  have m: "mset [JStr ''No alt text!''] \<subseteq># mset [JStr ''No alt text!'', JStr ''Kein Alt-Text!'']"
    by simp
  have s: "list_all is_str [JStr ''No alt text!'', JStr ''Kein Alt-Text!'']" by simp
  have l: "nat 2 \<le> length [both_status, bad_status]" by simp
  have q: "error_count 2 [both_status, bad_status] [JStr ''No alt text!'', JStr ''Kein Alt-Text!''] = Inr 3"
    by (simp add: error_count_def py_range_def upt_conv_Cons both_status_def bad_status_def)
  have e: "error_responses (JObj (table_three @ table_de)) = Inr [JStr ''No alt text!'', JStr ''Kein Alt-Text!'']"
    by (simp add: table_three_def table_de_def error_responses_def responses_def temp1_def temp2_def)
  have e': "error_responses (JObj table_three) = Inr [JStr ''No alt text!'']"
    by (simp add: table_three_def error_responses_def responses_def temp1_def temp2_def)
  from error_count_mono [where P = "[JStr ''No alt text!'']"
      and Q = "[JStr ''No alt text!'', JStr ''Kein Alt-Text!'']"
      and n = 2 and sts = "[both_status, bad_status]" and cq = 3
      and t = table_three and t' = table_de
      and Q' = "[JStr ''No alt text!'', JStr ''Kein Alt-Text!'']" and cq' = 3] m q e
  have "\<exists>cp. error_count 2 [both_status, bad_status] [JStr ''No alt text!''] = Inr cp \<and> cp \<le> 3"
    by blast
  with m s l q e e' show ?thesis by (intro conjI)
qed

text \<open>
  Claim C10 as stated (the count with \<open>P\<close> is at most the count with \<open>Q\<close> for every
  sub-collection \<open>P\<close> of \<open>Q\<close>; enlarging the table never lowers the count) fails: an entry
  of \<open>Q\<close> that is a list of strings makes \<^verbatim>\<open>error in content\<close> raise \<^verbatim>\<open>TypeError\<close>, so
  counting with \<open>P\<close> gives 1 where counting with \<open>Q\<close> gives no count at all. A table of
  the expected shape, enlarged by a locale whose \<^verbatim>\<open>altTextError\<close> is a list of strings,
  yields such a \<open>Q\<close>.
\<close>

theorem larger_collection_raises:
  "mset [JStr ''No alt text!''] \<subseteq>#
     mset [JStr ''No alt text!'',
           JArr [JStr ''Sin texto alternativo'', JStr ''Falta el texto alternativo'']] \<and>
   error_count 1 [bad_status] [JStr ''No alt text!''] = Inr 1 \<and>
   error_count 1 [bad_status]
     [JStr ''No alt text!'',
      JArr [JStr ''Sin texto alternativo'', JStr ''Falta el texto alternativo'']] = Inl TypeError \<and>
   localization_table (table_three @ table_list) \<and>
   error_responses (JObj table_three) = Inr [JStr ''No alt text!''] \<and>
   error_responses (JObj (table_three @ table_list)) =
     Inr [JStr ''No alt text!'',
          JArr [JStr ''Sin texto alternativo'', JStr ''Falta el texto alternativo'']]"
proof (intro conjI)
  show "mset [JStr ''No alt text!''] \<subseteq>#
     mset [JStr ''No alt text!'',
           JArr [JStr ''Sin texto alternativo'', JStr ''Falta el texto alternativo'']]"
    by simp
  show "error_count 1 [bad_status] [JStr ''No alt text!''] = Inr 1"
    by (simp add: error_count_def py_range_def bad_status_def)
  show "error_count 1 [bad_status]
     [JStr ''No alt text!'',
      JArr [JStr ''Sin texto alternativo'', JStr ''Falta el texto alternativo'']] = Inl TypeError"
    by (simp add: error_count_def py_range_def bad_status_def)
  show "localization_table (table_three @ table_list)"
    by (simp add: localization_table_def table_three_def table_list_def)
  show "error_responses (JObj table_three) = Inr [JStr ''No alt text!'']"
    by (rule error_responses_three)
  show "error_responses (JObj (table_three @ table_list)) =
     Inr [JStr ''No alt text!'',
          JArr [JStr ''Sin texto alternativo'', JStr ''Falta el texto alternativo'']]"
    by (simp add: table_three_def table_list_def error_responses_def responses_def
        temp1_def temp2_def)
qed

end
